theory Spec2Isabelle
  imports Complex_Main "HOL-Library.Word"
begin

section \<open>Claim values\<close>

text \<open>
  The Go package declares \<^verbatim>\<open>type Claims map[string]interface{}\<close>: a claim set maps a
  name to a value of any dynamic type. The type switches of the package tell the
  dynamic types apart, so the model is a datatype with one constructor for each type a
  switch names, for the 8- and 16-bit integers that no switch names, and two
  constructors for everything else:
  \<^item> \<open>VStringer s\<close> is a value of some other type that has a \<^verbatim>\<open>String() string\<close>
    method; \<open>s\<close> is the text that method returns (the method belongs to the caller and
    is taken to return);
  \<^item> \<open>VOther s\<close> is a value of some other type without that method (a map, a struct,
    a pointer, ...); \<open>s\<close> is the text that the verb \<^verbatim>\<open>%v\<close> renders it as, where the
    value stands.

  The width of Go's \<^verbatim>\<open>int\<close> and \<^verbatim>\<open>uint\<close> depends on the platform: the datatype
  takes their representation as the type parameter \<open>'i\<close>, and every function below
  works on \<open>'w word val\<close> for any width \<open>'w\<close>.

  A floating-point value is its IEEE class: a finite value with sign, significand and
  binary exponent (the value \<open>\<plusminus> m \<sdot> 2\<^sup>e\<close>), an infinity with its sign, or a NaN. The
  datatype does not bound significand and exponent, so it covers float32 and float64.

  A Go slice is a list; the nil slice and the empty slice are both \<open>[]\<close>.
\<close>

datatype gofloat = FFinite bool nat int | FInf bool | FNaN

datatype 'i val =
    VNil
  | VString string
  | VStrings "string list"
  | VSlice "'i val list"
  | VBool bool
  | VInt 'i
  | VUint 'i
  | VInt8 "8 word"
  | VUint8 "8 word"
  | VInt16 "16 word"
  | VUint16 "16 word"
  | VInt32 "32 word"
  | VUint32 "32 word"
  | VInt64 "64 word"
  | VUint64 "64 word"
  | VFloat32 gofloat
  | VFloat64 gofloat
  | VStringer string
  | VOther string

type_synonym 'w Claims = "string \<rightharpoonup> 'w word val"

text \<open>
  \<^verbatim>\<open>c[name]\<close>: reading a Go map at a missing key gives the zero value of the element
  type, here the nil interface. The two-valued form \<^verbatim>\<open>s, ok := c[name]\<close> also says
  whether the key is present; in the model that is \<open>c name \<noteq> None\<close>.
\<close>

definition index :: "'w Claims \<Rightarrow> string \<Rightarrow> 'w word val" where
  "index c name = (case c name of None \<Rightarrow> VNil | Some v \<Rightarrow> v)"

section \<open>Decimal text of integers\<close>

text \<open>
  \<^verbatim>\<open>strconv.FormatUint(u, 10)\<close> and \<^verbatim>\<open>strconv.FormatInt(i, 10)\<close> of Go's library: the
  decimal digits without leading zeros, after a minus sign for a negative number. As in
  the library the digits are those of the magnitude read as an unsigned 64-bit number,
  which is \<open>- i\<close> computed with wrap-around when \<open>i\<close> is negative.
\<close>

definition digit_char :: "nat \<Rightarrow> char" where
  "digit_char d = ''0123456789'' ! (d mod 10)"

fun dec :: "nat \<Rightarrow> string" where
  "dec n = (if n < 10 then [digit_char n] else dec (n div 10) @ [digit_char (n mod 10)])"

declare dec.simps [simp del]

definition FormatUint :: "64 word \<Rightarrow> string" where
  "FormatUint u = dec (unat u)"

definition FormatInt :: "64 word \<Rightarrow> string" where
  "FormatInt i = (if i <s 0 then ''-'' @ dec (unat (- i)) else dec (unat i))"

section \<open>stringify\<close>

text \<open>
  \<^verbatim>\<open>fmt.Sprintf("%v", v)\<close> of Go's library, for the values of the model: integers in
  decimal, booleans as \<^verbatim>\<open>true\<close> and \<^verbatim>\<open>false\<close>, a slice as its elements between
  brackets and separated by one space, a nil element as \<^verbatim>\<open><nil>\<close>, text as it is, a
  value with a \<^verbatim>\<open>String\<close> method by that method. The shortest decimal rendering of a
  floating-point value is not modelled: it is the parameter \<open>ff\<close>, which takes the
  value and its size in bits.
\<close>

fun intercalate :: "string \<Rightarrow> string list \<Rightarrow> string" where
  "intercalate sep [] = []"
| "intercalate sep [x] = x"
| "intercalate sep (x # y # ys) = x @ sep @ intercalate sep (y # ys)"

fun Sprintf_v :: "(gofloat \<Rightarrow> nat \<Rightarrow> string) \<Rightarrow> ('w::len) word val \<Rightarrow> string" where
  "Sprintf_v ff VNil = ''<nil>''"
| "Sprintf_v ff (VString s) = s"
| "Sprintf_v ff (VStrings ss) = ''['' @ intercalate '' '' ss @ '']''"
| "Sprintf_v ff (VSlice vs) = ''['' @ intercalate '' '' (map (Sprintf_v ff) vs) @ '']''"
| "Sprintf_v ff (VBool b) = (if b then ''true'' else ''false'')"
| "Sprintf_v ff (VInt i) = FormatInt (scast i)"
| "Sprintf_v ff (VUint u) = FormatUint (ucast u)"
| "Sprintf_v ff (VInt8 i) = FormatInt (scast i)"
| "Sprintf_v ff (VUint8 u) = FormatUint (ucast u)"
| "Sprintf_v ff (VInt16 i) = FormatInt (scast i)"
| "Sprintf_v ff (VUint16 u) = FormatUint (ucast u)"
| "Sprintf_v ff (VInt32 i) = FormatInt (scast i)"
| "Sprintf_v ff (VUint32 u) = FormatUint (ucast u)"
| "Sprintf_v ff (VInt64 i) = FormatInt i"
| "Sprintf_v ff (VUint64 u) = FormatUint u"
| "Sprintf_v ff (VFloat32 f) = ff f 32"
| "Sprintf_v ff (VFloat64 f) = ff f 64"
| "Sprintf_v ff (VStringer s) = s"
| "Sprintf_v ff (VOther s) = s"

text \<open>
  \<^verbatim>\<open>
  func stringify(value interface{}) string {
      if value == nil { return "" }
      switch tv := value.(type) {
      case string:       return tv
      case fmt.Stringer: return tv.String()
      default:           return fmt.Sprintf("%v", tv)
      }
  }
  \<close>
\<close>

definition stringify :: "(gofloat \<Rightarrow> nat \<Rightarrow> string) \<Rightarrow> ('w::len) word val \<Rightarrow> string" where
  "stringify ff v =
     (case v of
        VNil \<Rightarrow> ''''
      | VString tv \<Rightarrow> tv
      | VStringer tv \<Rightarrow> tv
      | _ \<Rightarrow> Sprintf_v ff v)"

section \<open>String and Strings\<close>

definition Claims_String ::
    "(gofloat \<Rightarrow> nat \<Rightarrow> string) \<Rightarrow> ('w::len) Claims \<Rightarrow> string \<Rightarrow> string" where
  "Claims_String ff c name = stringify ff (index c name)"

text \<open>
  \<^verbatim>\<open>
  case []interface{}:
      slice := make([]string, len(ts))
      for i, v := range ts {
          slice[i] = stringify(v)
      }
      return slice
  \<close>
  The loop writes by index into a slice allocated beforehand. An indexed write outside
  the slice panics in Go; the model keeps that branch (\<open>store\<close>), so that the absence
  of the panic is a theorem and not a convention.
\<close>

datatype panic = IndexOutOfRange

definition store :: "'a list \<Rightarrow> nat \<Rightarrow> 'a \<Rightarrow> panic + 'a list" where
  "store sl i x = (if i < length sl then Inr (sl[i := x]) else Inl IndexOutOfRange)"

fun fill :: "(gofloat \<Rightarrow> nat \<Rightarrow> string) \<Rightarrow> nat \<Rightarrow> ('w::len) word val list \<Rightarrow> string list
    \<Rightarrow> panic + string list" where
  "fill ff i [] sl = Inr sl"
| "fill ff i (v # vs) sl =
     (case store sl i (stringify ff v) of
        Inl p \<Rightarrow> Inl p
      | Inr sl' \<Rightarrow> fill ff (Suc i) vs sl')"

definition Claims_Strings ::
    "(gofloat \<Rightarrow> nat \<Rightarrow> string) \<Rightarrow> ('w::len) Claims \<Rightarrow> string \<Rightarrow> panic + string list" where
  "Claims_Strings ff c name =
     (case c name of
        None \<Rightarrow> Inr []
      | Some s \<Rightarrow>
          (case s of
             VStrings ts \<Rightarrow> Inr ts
           | VString ts \<Rightarrow> Inr [ts]
           | VSlice ts \<Rightarrow> fill ff 0 ts (replicate (length ts) '''')
           | _ \<Rightarrow> Inr [stringify ff s]))"

section \<open>Regular expressions\<close>

text \<open>
  \<^verbatim>\<open>var trueBool = regexp.MustCompile("^([Tt]r?u?e|[1-9][0-9]+)$")\<close>

  The syntax tree of a pattern, with the operators of Go's \<^verbatim>\<open>regexp/syntax\<close> that the
  pattern needs. A character class is a list of ranges \<open>(lo, hi)\<close>, both ends included.
  The matcher works by derivatives: \<open>deriv c r\<close> accepts what \<open>r\<close> accepts after
  reading \<open>c\<close>, and \<open>nullable r\<close> says whether \<open>r\<close> accepts the empty text.

  \<^verbatim>\<open>MatchString\<close> reports whether the text contains a match. Without the multi-line
  flag, \<^verbatim>\<open>^\<close> holds a match to the beginning of the text and \<^verbatim>\<open>$\<close> to its end. A
  compiled pattern \<open>Regexp ab r ae\<close> is a tree \<open>r\<close> with a flag for each of the two
  anchors around it, the shape of the pattern of \<open>trueBool\<close>: where an anchor is absent
  the match may be preceded, or followed, by any text.
\<close>

datatype regex =
    NoMatch
  | EmptyMatch
  | Literal char
  | CharClass "(char \<times> char) list"
  | Concat regex regex
  | Alternate regex regex
  | Star regex
  | Plus regex
  | Quest regex

definition in_range :: "char \<Rightarrow> char \<times> char \<Rightarrow> bool" where
  "in_range c r = ((of_char (fst r) :: nat) \<le> of_char c \<and> (of_char c :: nat) \<le> of_char (snd r))"

definition in_class :: "char \<Rightarrow> (char \<times> char) list \<Rightarrow> bool" where
  "in_class c rs = list_ex (in_range c) rs"

fun nullable :: "regex \<Rightarrow> bool" where
  "nullable NoMatch = False"
| "nullable EmptyMatch = True"
| "nullable (Literal a) = False"
| "nullable (CharClass rs) = False"
| "nullable (Concat r s) = (nullable r \<and> nullable s)"
| "nullable (Alternate r s) = (nullable r \<or> nullable s)"
| "nullable (Star r) = True"
| "nullable (Plus r) = nullable r"
| "nullable (Quest r) = True"

fun deriv :: "char \<Rightarrow> regex \<Rightarrow> regex" where
  "deriv c NoMatch = NoMatch"
| "deriv c EmptyMatch = NoMatch"
| "deriv c (Literal a) = (if c = a then EmptyMatch else NoMatch)"
| "deriv c (CharClass rs) = (if in_class c rs then EmptyMatch else NoMatch)"
| "deriv c (Concat r s) =
     (if nullable r then Alternate (Concat (deriv c r) s) (deriv c s)
      else Concat (deriv c r) s)"
| "deriv c (Alternate r s) = Alternate (deriv c r) (deriv c s)"
| "deriv c (Star r) = Concat (deriv c r) (Star r)"
| "deriv c (Plus r) = Concat (deriv c r) (Star r)"
| "deriv c (Quest r) = deriv c r"

fun derivs :: "regex \<Rightarrow> string \<Rightarrow> regex" where
  "derivs r [] = r"
| "derivs r (c # cs) = derivs (deriv c r) cs"

datatype Regexp = Regexp bool regex bool

definition any_text :: regex where
  "any_text = Star (CharClass [(CHR 0x00, CHR 0xFF)])"

definition search_tree :: "Regexp \<Rightarrow> regex" where
  "search_tree re =
     (case re of Regexp ab r ae \<Rightarrow>
        Concat (if ab then EmptyMatch else any_text)
          (Concat r (if ae then EmptyMatch else any_text)))"

definition MatchString :: "Regexp \<Rightarrow> string \<Rightarrow> bool" where
  "MatchString re s = nullable (derivs (search_tree re) s)"

definition trueBool_group :: regex where
  "trueBool_group =
     Alternate
       (Concat (CharClass [(CHR ''T'', CHR ''T''), (CHR ''t'', CHR ''t'')])
         (Concat (Quest (Literal CHR ''r''))
           (Concat (Quest (Literal CHR ''u'')) (Literal CHR ''e''))))
       (Concat (CharClass [(CHR ''1'', CHR ''9'')]) (Plus (CharClass [(CHR ''0'', CHR ''9'')])))"

definition trueBool :: Regexp where
  "trueBool = Regexp True trueBool_group True"

text \<open>
  The texts a pattern accepts, as the usual semantics of regular expressions defines
  them; \<open>repeated A\<close> is the set of all concatenations of texts of \<open>A\<close>. A text
  \<open>matches\<close> a compiled pattern when a part of it is in the language of the tree, and
  that part begins the text if the pattern is anchored at the beginning and ends the
  text if the pattern is anchored at the end. This is what "matches the regular
  expression" means, independently of any matcher.
\<close>

inductive_set repeated :: "string set \<Rightarrow> string set" for A :: "string set" where
  none: "[] \<in> repeated A"
| more: "u \<in> A \<Longrightarrow> v \<in> repeated A \<Longrightarrow> u @ v \<in> repeated A"

definition followed :: "string set \<Rightarrow> string set \<Rightarrow> string set" where
  "followed A B = {u @ v | u v. u \<in> A \<and> v \<in> B}"

fun lang :: "regex \<Rightarrow> string set" where
  "lang NoMatch = {}"
| "lang EmptyMatch = {[]}"
| "lang (Literal a) = {[a]}"
| "lang (CharClass rs) = {[c] | c. in_class c rs}"
| "lang (Concat r s) = followed (lang r) (lang s)"
| "lang (Alternate r s) = lang r \<union> lang s"
| "lang (Star r) = repeated (lang r)"
| "lang (Plus r) = followed (lang r) (repeated (lang r))"
| "lang (Quest r) = insert [] (lang r)"

definition matches :: "Regexp \<Rightarrow> string \<Rightarrow> bool" where
  "matches re s =
     (case re of Regexp ab r ae \<Rightarrow>
        \<exists>pre w post. s = pre @ w @ post \<and> w \<in> lang r \<and>
          (ab \<longrightarrow> pre = []) \<and> (ae \<longrightarrow> post = []))"

text \<open>
  The spec's description of the accepted texts, in its own words: the letter pattern
  \<^verbatim>\<open>[Tt]r?u?e\<close> (a \<^verbatim>\<open>T\<close> or \<^verbatim>\<open>t\<close>, an optional \<^verbatim>\<open>r\<close>, an optional \<^verbatim>\<open>u\<close>, an
  \<^verbatim>\<open>e\<close>), or a sequence of digits of length at least 2 whose first digit is 1 to 9.
\<close>

definition is_digit :: "char \<Rightarrow> bool" where
  "is_digit c = in_range c (CHR ''0'', CHR ''9'')"

definition truthy_letters :: "string \<Rightarrow> bool" where
  "truthy_letters s =
     (s = ''True'' \<or> s = ''true'' \<or> s = ''Tre'' \<or> s = ''tre'' \<or>
      s = ''Tue'' \<or> s = ''tue'' \<or> s = ''Te'' \<or> s = ''te'')"

definition truthy_digits :: "string \<Rightarrow> bool" where
  "truthy_digits s =
     (case s of
        [] \<Rightarrow> False
      | d # ds \<Rightarrow> in_range d (CHR ''1'', CHR ''9'') \<and> ds \<noteq> [] \<and> list_all is_digit ds)"

section \<open>Bool\<close>

text \<open>
  \<^verbatim>\<open>ts > 0\<close> on a floating-point value: true for a positive finite value and for
  \<open>+Inf\<close>; false for zero of either sign, for negative values and for NaN.
\<close>

fun float_gt0 :: "gofloat \<Rightarrow> bool" where
  "float_gt0 (FFinite neg m e) = (\<not> neg \<and> 0 < m)"
| "float_gt0 (FInf neg) = (\<not> neg)"
| "float_gt0 FNaN = False"

text \<open>The real number a finite floating-point value stands for.\<close>

definition float_val :: "bool \<Rightarrow> nat \<Rightarrow> int \<Rightarrow> real" where
  "float_val neg m e = (if neg then - 1 else 1) * real m * 2 powi e"

text \<open>
  \<^verbatim>\<open>
  func (c Claims) Bool(name string) bool {
      s := c[name]
      switch ts := s.(type) {
      case bool:    return ts
      case int:     return ts > 0
      case uint:    return ts > 0
      case int32:   return ts > 0
      case uint32:  return ts > 0
      case int64:   return ts > 0
      case uint64:  return ts > 0
      case float64: return ts > 0
      case float32: return ts > 0
      case string:  return trueBool.MatchString(ts)
      default:      return false
      }
  }
  \<close>
  On words \<open><\<close> is the unsigned order and \<open><s\<close> the signed one.
\<close>

definition Claims_Bool :: "('w::len) Claims \<Rightarrow> string \<Rightarrow> bool" where
  "Claims_Bool c name =
     (case index c name of
        VBool ts \<Rightarrow> ts
      | VInt ts \<Rightarrow> 0 <s ts
      | VUint ts \<Rightarrow> 0 < ts
      | VInt32 ts \<Rightarrow> 0 <s ts
      | VUint32 ts \<Rightarrow> 0 < ts
      | VInt64 ts \<Rightarrow> 0 <s ts
      | VUint64 ts \<Rightarrow> 0 < ts
      | VFloat64 ts \<Rightarrow> float_gt0 ts
      | VFloat32 ts \<Rightarrow> float_gt0 ts
      | VString ts \<Rightarrow> MatchString trueBool ts
      | _ \<Rightarrow> False)"

section \<open>Int\<close>

text \<open>
  \<^verbatim>\<open>strconv.ParseInt(s, 10, 64)\<close> of Go's library. \<^verbatim>\<open>ParseUint\<close> reads decimal digits
  into an unsigned 64-bit number and reports a range error before the number would
  overflow (\<open>cutoff\<close> is the smallest number whose tenfold overflows); any other
  character, and the empty text, is a syntax error. The library's last check, that the
  number does not exceed the largest value of the bit size, cannot fail at 64 bits and
  is left out. \<^verbatim>\<open>ParseInt\<close> takes an optional
  sign first and then checks the magnitude against \<open>2\<^sup>6\<^sup>3\<close>. Wherever the library
  returns a value together with an error, the model returns the error.
\<close>

datatype NumError = ErrSyntax | ErrRange

definition digit_val :: "char \<Rightarrow> nat option" where
  "digit_val c = (if is_digit c then Some (of_char c - 48) else None)"

definition cutoff :: "64 word" where
  "cutoff = 18446744073709551615 div 10 + 1"

fun ParseUint_loop :: "64 word \<Rightarrow> string \<Rightarrow> NumError + 64 word" where
  "ParseUint_loop n [] = Inr n"
| "ParseUint_loop n (c # cs) =
     (case digit_val c of
        None \<Rightarrow> Inl ErrSyntax
      | Some d \<Rightarrow>
          if cutoff \<le> n then Inl ErrRange
          else if n * 10 + of_nat d < n * 10 then Inl ErrRange
          else ParseUint_loop (n * 10 + of_nat d) cs)"

definition ParseUint :: "string \<Rightarrow> NumError + 64 word" where
  "ParseUint s = (if s = [] then Inl ErrSyntax else ParseUint_loop 0 s)"

definition ParseInt_signed :: "bool \<Rightarrow> string \<Rightarrow> NumError + 64 word" where
  "ParseInt_signed neg s =
     (case ParseUint s of
        Inl err \<Rightarrow> Inl err
      | Inr un \<Rightarrow>
          if \<not> neg \<and> 2 ^ 63 \<le> un then Inl ErrRange
          else if neg \<and> 2 ^ 63 < un then Inl ErrRange
          else Inr (if neg then - un else un))"

definition ParseInt :: "string \<Rightarrow> NumError + 64 word" where
  "ParseInt s =
     (case s of
        [] \<Rightarrow> Inl ErrSyntax
      | c # cs \<Rightarrow>
          if c = CHR ''+'' then ParseInt_signed False cs
          else if c = CHR ''-'' then ParseInt_signed True cs
          else ParseInt_signed False s)"

text \<open>
  \<^verbatim>\<open>int64(ts)\<close> on a floating-point value drops the fraction (truncation towards
  zero). When the truncated value does not fit 64 bits, or there is none (infinities,
  NaN), Go leaves the result to the implementation: it is the parameter \<open>oor\<close>.
\<close>

fun float_trunc :: "gofloat \<Rightarrow> int option" where
  "float_trunc (FFinite neg m e) =
     Some ((if neg then - 1 else 1) *
           (if 0 \<le> e then int m * 2 ^ nat e else int m div 2 ^ nat (- e)))"
| "float_trunc (FInf neg) = None"
| "float_trunc FNaN = None"

definition int64_of_float :: "(gofloat \<Rightarrow> 64 word) \<Rightarrow> gofloat \<Rightarrow> 64 word" where
  "int64_of_float oor f =
     (case float_trunc f of
        None \<Rightarrow> oor f
      | Some i \<Rightarrow> if - (2 ^ 63) \<le> i \<and> i < 2 ^ 63 then word_of_int i else oor f)"

text \<open>
  \<^verbatim>\<open>
  func (c Claims) Int(name string) int64 {
      s := c[name]
      switch ts := s.(type) {
      case uint64:  return int64(ts)
      case uint32:  return int64(ts)
      case uint:    return int64(ts)
      case int64:   return int64(ts)
      case int32:   return int64(ts)
      case int:     return int64(ts)
      case float64: return int64(ts)
      case float32: return int64(ts)
      case string:
          i, err := strconv.ParseInt(ts, 10, 64)
          if err == nil { return i }
      }
      return 0
  }
  \<close>
  A conversion between integer types keeps the low bits: \<open>ucast\<close> extends an unsigned
  value with zeros, \<open>scast\<close> extends a signed value with its sign bit.
\<close>

definition Claims_Int :: "(gofloat \<Rightarrow> 64 word) \<Rightarrow> ('w::len) Claims \<Rightarrow> string \<Rightarrow> 64 word" where
  "Claims_Int oor c name =
     (case index c name of
        VUint64 ts \<Rightarrow> ts
      | VUint32 ts \<Rightarrow> ucast ts
      | VUint ts \<Rightarrow> ucast ts
      | VInt64 ts \<Rightarrow> ts
      | VInt32 ts \<Rightarrow> scast ts
      | VInt ts \<Rightarrow> scast ts
      | VFloat64 ts \<Rightarrow> int64_of_float oor ts
      | VFloat32 ts \<Rightarrow> int64_of_float oor ts
      | VString ts \<Rightarrow> (case ParseInt ts of Inr i \<Rightarrow> i | Inl err \<Rightarrow> 0)
      | _ \<Rightarrow> 0)"

section \<open>Time\<close>

text \<open>
  A \<^verbatim>\<open>time.Time\<close> of Go's library without monotonic clock reading: \<open>wall\<close> holds the
  nanoseconds within the second, \<open>ext\<close> the seconds since 1 January of year 1 as a
  signed 64-bit number, \<open>loc\<close> the location. \<^verbatim>\<open>time.Unix(sec, 0)\<close> adds the seconds between year 1 and 1970 to \<open>sec\<close>
  (with wrap-around) and is in the local zone; \<^verbatim>\<open>t.UTC()\<close> keeps the instant and sets
  the location; \<^verbatim>\<open>t.Unix()\<close> takes the same number of seconds off again.
\<close>

datatype Location = UTC | Local | FixedZone string int

record Time =
  wall :: nat
  ext :: "64 word"
  loc :: Location

definition unixToInternal :: "64 word" where
  "unixToInternal = (1969 * 365 + 1969 div 4 - 1969 div 100 + 1969 div 400) * 86400"

definition time_Unix :: "64 word \<Rightarrow> Time" where
  "time_Unix s = \<lparr>wall = 0, ext = s + unixToInternal, loc = Local\<rparr>"

definition Time_UTC :: "Time \<Rightarrow> Time" where
  "Time_UTC t = t\<lparr>loc := UTC\<rparr>"

definition Time_Unix :: "Time \<Rightarrow> 64 word" where
  "Time_Unix t = ext t - unixToInternal"

definition RFC822 :: string where
  "RFC822 = ''02 Jan 06 15:04 MST''"

text \<open>
  \<^verbatim>\<open>
  func (c Claims) Time(name string) time.Time {
      switch ts := c[name].(type) {
      case uint64:  return time.Unix(int64(ts), 0).UTC()
      case uint32:  return time.Unix(int64(ts), 0).UTC()
      case uint:    return time.Unix(int64(ts), 0).UTC()
      case int64:   return time.Unix(ts, 0).UTC()
      case int32:   return time.Unix(int64(ts), 0).UTC()
      case int:     return time.Unix(int64(ts), 0).UTC()
      case float64: return time.Unix(int64(ts), 0).UTC()
      case float32: return time.Unix(int64(ts), 0).UTC()
      case string:
          t, err := time.Parse(time.RFC822, ts)
          if err == nil { return t.UTC() }
          return time.Unix(0, 0).UTC()
      default:
          return time.Unix(0, 0).UTC()
      }
  }
  \<close>
  \<^verbatim>\<open>time.Parse\<close> belongs to Go's library and depends on the zone database of the
  machine: it is the parameter \<open>parse\<close>, which takes the layout and the text and
  returns an error or a time.
\<close>

definition Claims_Time ::
    "(gofloat \<Rightarrow> 64 word) \<Rightarrow> (string \<Rightarrow> string \<Rightarrow> 'e + Time) \<Rightarrow> ('w::len) Claims \<Rightarrow> string \<Rightarrow> Time" where
  "Claims_Time oor parse c name =
     (case index c name of
        VUint64 ts \<Rightarrow> Time_UTC (time_Unix ts)
      | VUint32 ts \<Rightarrow> Time_UTC (time_Unix (ucast ts))
      | VUint ts \<Rightarrow> Time_UTC (time_Unix (ucast ts))
      | VInt64 ts \<Rightarrow> Time_UTC (time_Unix ts)
      | VInt32 ts \<Rightarrow> Time_UTC (time_Unix (scast ts))
      | VInt ts \<Rightarrow> Time_UTC (time_Unix (scast ts))
      | VFloat64 ts \<Rightarrow> Time_UTC (time_Unix (int64_of_float oor ts))
      | VFloat32 ts \<Rightarrow> Time_UTC (time_Unix (int64_of_float oor ts))
      | VString ts \<Rightarrow>
          (case parse RFC822 ts of
             Inr t \<Rightarrow> Time_UTC t
           | Inl err \<Rightarrow> Time_UTC (time_Unix 0))
      | _ \<Rightarrow> Time_UTC (time_Unix 0))"

text \<open>The epoch origin in UTC: \<^verbatim>\<open>time.Unix(0, 0).UTC()\<close>.\<close>

definition epoch_UTC :: Time where
  "epoch_UTC = Time_UTC (time_Unix 0)"

text \<open>
  \<^verbatim>\<open>
  func (c Claims) Issuer() string      { return c.String("iss") }
  func (c Claims) Subject() string     { return c.String("sub") }
  func (c Claims) IssuedAt() time.Time { return c.Time("iat") }
  func (c Claims) NotBefore() time.Time { return c.Time("nbf") }
  func (c Claims) ExpiresAt() time.Time { return c.Time("exp") }
  \<close>
\<close>

definition Issuer :: "(gofloat \<Rightarrow> nat \<Rightarrow> string) \<Rightarrow> ('w::len) Claims \<Rightarrow> string" where
  "Issuer ff c = Claims_String ff c ''iss''"

definition Subject :: "(gofloat \<Rightarrow> nat \<Rightarrow> string) \<Rightarrow> ('w::len) Claims \<Rightarrow> string" where
  "Subject ff c = Claims_String ff c ''sub''"

definition IssuedAt ::
    "(gofloat \<Rightarrow> 64 word) \<Rightarrow> (string \<Rightarrow> string \<Rightarrow> 'e + Time) \<Rightarrow> ('w::len) Claims \<Rightarrow> Time" where
  "IssuedAt oor parse c = Claims_Time oor parse c ''iat''"

definition NotBefore ::
    "(gofloat \<Rightarrow> 64 word) \<Rightarrow> (string \<Rightarrow> string \<Rightarrow> 'e + Time) \<Rightarrow> ('w::len) Claims \<Rightarrow> Time" where
  "NotBefore oor parse c = Claims_Time oor parse c ''nbf''"

definition ExpiresAt ::
    "(gofloat \<Rightarrow> 64 word) \<Rightarrow> (string \<Rightarrow> string \<Rightarrow> 'e + Time) \<Rightarrow> ('w::len) Claims \<Rightarrow> Time" where
  "ExpiresAt oor parse c = Claims_Time oor parse c ''exp''"

section \<open>The stored number of seconds\<close>

text \<open>
  The spec's reading of a numeric claim as a count of seconds, in its own words: the
  integer a claim value stores, for the types that the switch of \<^verbatim>\<open>Time\<close> names, and
  for a finite floating-point value the real number it stands for without its
  fractional part. Signed types are read as two's complement, unsigned types as they
  are. Infinities and NaN store no number of seconds.
\<close>

definition drop_fraction :: "real \<Rightarrow> int" where
  "drop_fraction x = (if 0 \<le> x then \<lfloor>x\<rfloor> else \<lceil>x\<rceil>)"

fun float_seconds :: "gofloat \<Rightarrow> int option" where
  "float_seconds (FFinite neg m e) = Some (drop_fraction (float_val neg m e))"
| "float_seconds (FInf neg) = None"
| "float_seconds FNaN = None"

definition stored_seconds :: "('w::len) word val \<Rightarrow> int option" where
  "stored_seconds v =
     (case v of
        VInt ts \<Rightarrow> Some (sint ts)
      | VInt32 ts \<Rightarrow> Some (sint ts)
      | VInt64 ts \<Rightarrow> Some (sint ts)
      | VUint ts \<Rightarrow> Some (uint ts)
      | VUint32 ts \<Rightarrow> Some (uint ts)
      | VUint64 ts \<Rightarrow> Some (uint ts)
      | VFloat32 ts \<Rightarrow> float_seconds ts
      | VFloat64 ts \<Rightarrow> float_seconds ts
      | _ \<Rightarrow> None)"

section \<open>Sample parameters\<close>

text \<open>
  Concrete values of the three parameters, for running the model on concrete inputs.
  \<open>ff_sample\<close> renders NaN and the infinities as \<^verbatim>\<open>%v\<close> does and stands in for the
  digits of a finite value. \<open>oor_amd64\<close> is the result of an out-of-range conversion on
  amd64, the smallest 64-bit integer. \<open>parse_sample\<close> stands in for \<^verbatim>\<open>time.Parse\<close>: it
  knows two texts in the RFC 822 layout, one minute after the epoch in UTC, and the
  layout's own reference time in a zone \<^verbatim>\<open>MST\<close> of unknown offset, and rejects every
  other text.
\<close>

definition ff_sample :: "gofloat \<Rightarrow> nat \<Rightarrow> string" where
  "ff_sample f bits =
     (case f of
        FNaN \<Rightarrow> ''NaN''
      | FInf neg \<Rightarrow> (if neg then ''-Inf'' else ''+Inf'')
      | FFinite neg m e \<Rightarrow> ''<float>'')"

definition oor_amd64 :: "gofloat \<Rightarrow> 64 word" where
  "oor_amd64 f = - (2 ^ 63)"

definition parse_sample :: "string \<Rightarrow> string \<Rightarrow> string + Time" where
  "parse_sample layout text =
     (if text = ''01 Jan 70 00:01 UTC''
      then Inr \<lparr>wall = 0, ext = 60 + unixToInternal, loc = UTC\<rparr>
      else if text = ''02 Jan 06 15:04 MST''
      then Inr \<lparr>wall = 0, ext = 1136214240 + unixToInternal, loc = FixedZone ''MST'' 0\<rparr>
      else Inl ''parsing time: cannot parse'')"

section \<open>Lemmas: the loop of Strings\<close>

lemma fill_eq:
  "i + length vs \<le> length sl \<Longrightarrow>
   fill ff i vs sl = Inr (take i sl @ map (stringify ff) vs @ drop (i + length vs) sl)"
proof (induction vs arbitrary: i sl)
  case Nil
  then show ?case by simp
next
  case (Cons v vs)
  then have i: "i < length sl" by simp
  have "fill ff i (v # vs) sl = fill ff (Suc i) vs (sl[i := stringify ff v])"
    using i by (simp add: store_def)
  also have "\<dots> = Inr (take (Suc i) (sl[i := stringify ff v]) @ map (stringify ff) vs
      @ drop (Suc i + length vs) (sl[i := stringify ff v]))"
    using Cons.prems by (intro Cons.IH) simp
  also have "take (Suc i) (sl[i := stringify ff v]) = take i sl @ [stringify ff v]"
    using i by (simp add: take_Suc_conv_app_nth)
  finally show ?case by simp
qed

lemma fill_all: "fill ff 0 vs (replicate (length vs) x) = Inr (map (stringify ff) vs)"
  by (simp add: fill_eq)


section \<open>Lemmas: the matcher accepts the language of the pattern\<close>

lemma followed_iff: "w \<in> followed A B \<longleftrightarrow> (\<exists>u v. w = u @ v \<and> u \<in> A \<and> v \<in> B)"
  by (auto simp: followed_def)

lemma repeated_Cons_split:
  assumes "x \<in> repeated A" and "x = c # w"
  shows "\<exists>u v. w = u @ v \<and> c # u \<in> A \<and> v \<in> repeated A"
  using assms
proof (induction arbitrary: w rule: repeated.induct)
  case none
  then show ?case by simp
next
  case (more u v)
  show ?case
  proof (cases u)
    case Nil
    with more show ?thesis by simp
  next
    case (Cons a u')
    with more.prems have "a = c" and "w = u' @ v" by simp_all
    with more.hyps Cons show ?thesis by blast
  qed
qed

lemma repeated_Cons_iff:
  "c # w \<in> repeated A \<longleftrightarrow> (\<exists>u v. w = u @ v \<and> c # u \<in> A \<and> v \<in> repeated A)"
proof
  assume "c # w \<in> repeated A"
  then show "\<exists>u v. w = u @ v \<and> c # u \<in> A \<and> v \<in> repeated A"
    by (rule repeated_Cons_split) simp
next
  assume "\<exists>u v. w = u @ v \<and> c # u \<in> A \<and> v \<in> repeated A"
  then obtain u v where "w = u @ v" "c # u \<in> A" "v \<in> repeated A" by blast
  then have "(c # u) @ v \<in> repeated A" by (intro repeated.more)
  with \<open>w = u @ v\<close> show "c # w \<in> repeated A" by simp
qed

lemma followed_Cons_iff:
  "c # w \<in> followed A B \<longleftrightarrow>
     (\<exists>u v. w = u @ v \<and> c # u \<in> A \<and> v \<in> B) \<or> ([] \<in> A \<and> c # w \<in> B)"
  by (auto simp: followed_iff Cons_eq_append_conv)

lemma nullable_iff: "nullable r \<longleftrightarrow> [] \<in> lang r"
  by (induction r) (simp_all add: followed_iff repeated.none)

lemma lang_deriv: "w \<in> lang (deriv c r) \<longleftrightarrow> c # w \<in> lang r"
proof (induction r arbitrary: w)
  case NoMatch
  show ?case by simp
next
  case EmptyMatch
  show ?case by simp
next
  case (Literal a)
  show ?case by auto
next
  case (CharClass rs)
  show ?case by auto
next
  case (Concat r s)
  have "c # w \<in> lang (Concat r s) \<longleftrightarrow>
      (\<exists>u v. w = u @ v \<and> c # u \<in> lang r \<and> v \<in> lang s) \<or> ([] \<in> lang r \<and> c # w \<in> lang s)"
    by (simp add: followed_Cons_iff)
  also have "\<dots> \<longleftrightarrow>
      (\<exists>u v. w = u @ v \<and> u \<in> lang (deriv c r) \<and> v \<in> lang s) \<or> (nullable r \<and> w \<in> lang (deriv c s))"
    by (simp add: Concat.IH nullable_iff)
  also have "\<dots> \<longleftrightarrow> w \<in> lang (deriv c (Concat r s))"
    by (simp add: followed_iff)
  finally show ?case by simp
next
  case (Alternate r s)
  then show ?case by simp
next
  case (Star r)
  then show ?case by (simp add: repeated_Cons_iff followed_iff)
next
  case (Plus r)
  have "c # w \<in> lang (Plus r) \<longleftrightarrow>
      (\<exists>u v. w = u @ v \<and> c # u \<in> lang r \<and> v \<in> repeated (lang r)) \<or>
      ([] \<in> lang r \<and> c # w \<in> repeated (lang r))"
    by (simp add: followed_Cons_iff)
  also have "\<dots> \<longleftrightarrow> (\<exists>u v. w = u @ v \<and> c # u \<in> lang r \<and> v \<in> repeated (lang r))"
    by (auto simp: repeated_Cons_iff)
  also have "\<dots> \<longleftrightarrow> w \<in> lang (deriv c (Plus r))"
    by (simp add: followed_iff Plus.IH)
  finally show ?case by simp
next
  case (Quest r)
  then show ?case by simp
qed

lemma lang_derivs: "w \<in> lang (derivs r s) \<longleftrightarrow> s @ w \<in> lang r"
  by (induction s arbitrary: r) (simp_all add: lang_deriv)

lemma any_byte: "in_class c [(CHR 0x00, CHR 0xFF)]"
proof -
  have "(of_char c :: nat) < 256" by (rule nat_of_char_less_256)
  then have "(of_char c :: nat) \<le> 255" by linarith
  then show ?thesis by (simp add: in_class_def in_range_def)
qed

section \<open>Lemmas: the language of trueBool\<close>

lemma in_range_single: "in_range c (a, a) \<longleftrightarrow> c = a"
proof -
  have "(of_char c :: nat) = of_char a \<longleftrightarrow> c = a" by (rule of_char_eq_iff)
  then show ?thesis by (auto simp: in_range_def)
qed

lemma repeated_chars: "w \<in> repeated {[c] | c. P c} \<longleftrightarrow> list_all P w"
proof
  assume "w \<in> repeated {[c] | c. P c}"
  then show "list_all P w" by (induction rule: repeated.induct) auto
next
  assume "list_all P w"
  then show "w \<in> repeated {[c] | c. P c}"
  proof (induction w)
    case Nil
    show ?case by (rule repeated.none)
  next
    case (Cons a w)
    then have "[a] \<in> {[c] | c. P c}" and "w \<in> repeated {[c] | c. P c}" by simp_all
    then have "[a] @ w \<in> repeated {[c] | c. P c}" by (rule repeated.more)
    then show ?case by simp
  qed
qed

lemma followed_char: "w \<in> followed {[c] | c. P c} B \<longleftrightarrow> (\<exists>c v. w = c # v \<and> P c \<and> v \<in> B)"
proof
  assume "w \<in> followed {[c] | c. P c} B"
  then obtain u v where "w = u @ v" "u \<in> {[c] | c. P c}" "v \<in> B"
    unfolding followed_iff by blast
  then show "\<exists>c v. w = c # v \<and> P c \<and> v \<in> B" by auto
next
  assume "\<exists>c v. w = c # v \<and> P c \<and> v \<in> B"
  then obtain c v where "w = [c] @ v" "[c] \<in> {[c] | c. P c}" "v \<in> B" by auto
  then show "w \<in> followed {[c] | c. P c} B" unfolding followed_iff by blast
qed

lemma followed_opt: "w \<in> followed (insert [] {[a]}) B \<longleftrightarrow> w \<in> B \<or> (\<exists>v. w = a # v \<and> v \<in> B)"
proof
  assume "w \<in> followed (insert [] {[a]}) B"
  then obtain u v where "w = u @ v" "u = [] \<or> u = [a]" "v \<in> B"
    unfolding followed_iff by blast
  then show "w \<in> B \<or> (\<exists>v. w = a # v \<and> v \<in> B)" by auto
next
  assume "w \<in> B \<or> (\<exists>v. w = a # v \<and> v \<in> B)"
  then consider "w \<in> B" | v where "w = [a] @ v" "v \<in> B" by auto
  then show "w \<in> followed (insert [] {[a]}) B"
  proof cases
    case 1
    then have "w = [] @ w" "[] \<in> insert [] {[a]}" by simp_all
    with 1 show ?thesis unfolding followed_iff by blast
  next
    case 2
    moreover have "[a] \<in> insert [] {[a]}" by simp
    ultimately show ?thesis unfolding followed_iff by blast
  qed
qed

lemma lang_ue:
  "x \<in> followed (insert [] {[CHR ''u'']}) {[CHR ''e'']} \<longleftrightarrow> x = ''e'' \<or> x = ''ue''"
  by (simp add: followed_opt)

lemma lang_rue:
  "x \<in> followed (insert [] {[CHR ''r'']}) (followed (insert [] {[CHR ''u'']}) {[CHR ''e'']})
     \<longleftrightarrow> x = ''e'' \<or> x = ''ue'' \<or> x = ''re'' \<or> x = ''rue''"
  by (simp add: followed_opt [where B = "followed (insert [] {[CHR ''u'']}) {[CHR ''e'']}"] lang_ue)
    auto

lemma lang_letters:
  "s \<in> lang (Concat (CharClass [(CHR ''T'', CHR ''T''), (CHR ''t'', CHR ''t'')])
         (Concat (Quest (Literal CHR ''r''))
           (Concat (Quest (Literal CHR ''u'')) (Literal CHR ''e'')))) \<longleftrightarrow> truthy_letters s"
proof -
  have "s \<in> lang (Concat (CharClass [(CHR ''T'', CHR ''T''), (CHR ''t'', CHR ''t'')])
         (Concat (Quest (Literal CHR ''r''))
           (Concat (Quest (Literal CHR ''u'')) (Literal CHR ''e'')))) \<longleftrightarrow>
     (\<exists>c v. s = c # v \<and> (c = CHR ''T'' \<or> c = CHR ''t'') \<and>
        (v = ''e'' \<or> v = ''ue'' \<or> v = ''re'' \<or> v = ''rue''))"
    by (simp add: followed_char lang_rue in_class_def in_range_single)
  also have "\<dots> \<longleftrightarrow> truthy_letters s"
    unfolding truthy_letters_def by auto
  finally show ?thesis .
qed

lemma lang_digits:
  "s \<in> lang (Concat (CharClass [(CHR ''1'', CHR ''9'')]) (Plus (CharClass [(CHR ''0'', CHR ''9'')])))
     \<longleftrightarrow> truthy_digits s"
proof -
  have "s \<in> lang (Concat (CharClass [(CHR ''1'', CHR ''9'')]) (Plus (CharClass [(CHR ''0'', CHR ''9'')])))
     \<longleftrightarrow> (\<exists>d ds. s = d # ds \<and> in_range d (CHR ''1'', CHR ''9'') \<and>
           (\<exists>c v. ds = c # v \<and> is_digit c \<and> list_all is_digit v))"
    by (simp add: followed_char in_class_def repeated_chars is_digit_def [abs_def])
  also have "\<dots> \<longleftrightarrow> truthy_digits s"
    unfolding truthy_digits_def by (cases s) (auto simp: neq_Nil_conv)
  finally show ?thesis .
qed

lemma lang_trueBool_group:
  "s \<in> lang trueBool_group \<longleftrightarrow> truthy_letters s \<or> truthy_digits s"
  unfolding trueBool_group_def lang.simps(6) Un_iff lang_letters lang_digits ..

lemma lang_any_text: "lang any_text = UNIV"
proof -
  have "w \<in> repeated {[c] | c. True}" for w :: string
    by (simp only: repeated_chars) (simp add: list_all_iff)
  then show ?thesis by (auto simp: any_text_def any_byte)
qed

lemma MatchString_iff: "MatchString re s \<longleftrightarrow> matches re s"
proof (cases re)
  case (Regexp ab r ae)
  have "MatchString re s \<longleftrightarrow> s \<in> lang (search_tree re)"
    by (simp add: MatchString_def nullable_iff lang_derivs)
  also have "\<dots> \<longleftrightarrow> (\<exists>pre t. s = pre @ t \<and> (ab \<longrightarrow> pre = []) \<and>
      (\<exists>w post. t = w @ post \<and> w \<in> lang r \<and> (ae \<longrightarrow> post = [])))"
    by (simp add: Regexp search_tree_def followed_iff lang_any_text)
  also have "\<dots> \<longleftrightarrow> matches re s"
    by (auto simp: Regexp matches_def)
  finally show ?thesis .
qed

lemma matches_trueBool: "matches trueBool s \<longleftrightarrow> truthy_letters s \<or> truthy_digits s"
  by (simp add: matches_def trueBool_def lang_trueBool_group)

section \<open>Lemmas: decimal text read back\<close>

lemma digit_char_cases: "d < 10 \<Longrightarrow> d = 0 \<or> d = 1 \<or> d = 2 \<or> d = 3 \<or> d = 4 \<or> d = 5 \<or> d = 6 \<or> d = 7 \<or> d = 8 \<or> d = (9::nat)"
  by arith

lemma digit_val_digit_char: "d < 10 \<Longrightarrow> digit_val (digit_char d) = Some d"
  using digit_char_cases [of d]
  by (auto simp: digit_val_def digit_char_def is_digit_def in_range_def)

lemma digit_char_not_sign: "digit_char d \<noteq> CHR ''+'' \<and> digit_char d \<noteq> CHR ''-''"
  using digit_char_cases [of "d mod 10"]
  by (auto simp: digit_char_def)

lemma ParseUint_loop_append:
  "ParseUint_loop n (xs @ ys) =
     (case ParseUint_loop n xs of Inl e \<Rightarrow> Inl e | Inr n' \<Rightarrow> ParseUint_loop n' ys)"
  by (induction xs arbitrary: n) (simp_all split: option.splits)

lemma dec_nonempty: "dec m \<noteq> []"
  by (subst dec.simps) simp

lemma dec_starts_with_digit: "\<exists>k cs. dec m = digit_char k # cs"
proof (induction m rule: dec.induct)
  case (1 n)
  show ?case
  proof (cases "n < 10")
    case True
    then show ?thesis by (subst dec.simps) auto
  next
    case False
    with 1 obtain k cs where "dec (n div 10) = digit_char k # cs" by blast
    with False show ?thesis by (subst dec.simps) auto
  qed
qed

lemma unat_cutoff: "unat cutoff = 1844674407370955162"
  by (simp add: cutoff_def)

lemma ParseUint_loop_dec:
  "m < 2 ^ 64 \<Longrightarrow> ParseUint_loop 0 (dec m) = Inr (of_nat m)"
proof (induction m rule: dec.induct)
  case (1 m)
  show ?case
  proof (cases "m < 10")
    case True
    have "\<not> cutoff \<le> 0" by (simp add: word_le_nat_alt unat_cutoff)
    with True show ?thesis
      by (subst dec.simps) (simp add: digit_val_digit_char)
  next
    case False
    define q where "q = m div 10"
    define r where "r = m mod 10"
    have m: "m = q * 10 + r" and r: "r < 10" by (simp_all add: q_def r_def)
    have q: "q < 2 ^ 64" using "1.prems" by (simp add: q_def)
    have uq: "unat (of_nat q :: 64 word) = q" using q by (simp add: unat_of_nat)
    have "q \<le> 1844674407370955161" using "1.prems" by (simp add: q_def)
    then have c: "\<not> cutoff \<le> (of_nat q :: 64 word)"
      by (simp add: word_le_nat_alt unat_cutoff uq)
    have e: "(of_nat q :: 64 word) * 10 + of_nat r = of_nat m" by (simp add: m)
    have u10: "unat ((of_nat q :: 64 word) * 10) = q * 10"
    proof -
      have "(of_nat q :: 64 word) * 10 = of_nat (q * 10)" by simp
      moreover have "q * 10 < 2 ^ 64" using "1.prems" m by simp
      ultimately show ?thesis by (simp only: unat_of_nat) simp
    qed
    have um: "unat (of_nat m :: 64 word) = m" using "1.prems" by (simp add: unat_of_nat)
    have w: "\<not> (of_nat m :: 64 word) < of_nat q * 10"
      by (simp only: word_less_nat_alt um u10) (simp add: m)
    have "ParseUint_loop 0 (dec (m div 10)) = Inr (of_nat q)"
      using "1.IH" False q by (simp add: q_def)
    then have "ParseUint_loop 0 (dec m) = ParseUint_loop (of_nat q) [digit_char r]"
      using False by (subst dec.simps) (simp add: ParseUint_loop_append q_def r_def)
    also have "\<dots> = Inr (of_nat m)"
      using c w by (simp add: digit_val_digit_char r e)
    finally show ?thesis .
  qed
qed

lemma ParseUint_dec: "m < 2 ^ 64 \<Longrightarrow> ParseUint (dec m) = Inr (of_nat m)"
  by (simp add: ParseUint_def dec_nonempty ParseUint_loop_dec)

lemma ParseUint_dec_unat: "ParseUint (dec (unat (w :: 64 word))) = Inr w"
proof -
  have "unat w < 2 ^ 64" using unsigned_less [of w] by simp
  then show ?thesis by (simp add: ParseUint_dec)
qed

lemma ParseInt_dec:
  "ParseInt (dec m) = ParseInt_signed False (dec m)"
proof -
  obtain k cs where "dec m = digit_char k # cs" using dec_starts_with_digit by blast
  then show ?thesis by (simp add: ParseInt_def digit_char_not_sign)
qed

lemma sint_small: "uint (i :: 64 word) < 2 ^ 63 \<Longrightarrow> sint i = uint i"
proof -
  assume a: "uint i < 2 ^ 63"
  have b: "- (2 ^ 63) \<le> uint i" by (rule order_trans [of _ 0]) simp_all
  have "signed_take_bit 63 (uint i) = uint i"
    using b a by (rule signed_take_bit_int_eq_self)
  then show ?thesis by (simp add: sint_uint)
qed

lemma sint_large: "2 ^ 63 \<le> uint (i :: 64 word) \<Longrightarrow> sint i \<le> uint i - 2 ^ 64"
proof -
  assume "2 ^ 63 \<le> uint i"
  then have "signed_take_bit 63 (uint i) \<le> uint i - 2 ^ Suc 63"
    by (rule signed_take_bit_int_less_eq)
  then show ?thesis by (simp add: sint_uint)
qed

lemma sint_neg_iff: "sint (i :: 64 word) < 0 \<longleftrightarrow> 2 ^ 63 \<le> uint i"
proof
  assume "sint i < 0"
  then show "2 ^ 63 \<le> uint i" using sint_small [of i] by (cases "uint i < 2 ^ 63") simp_all
next
  assume "2 ^ 63 \<le> uint i"
  then have "sint i \<le> uint i - 2 ^ 64" by (rule sint_large)
  moreover have "uint i < 2 ^ 64" using uint_lt2p [of i] by simp
  ultimately show "sint i < 0" by simp
qed

lemma neg_magnitude: "sint (i :: 64 word) < 0 \<Longrightarrow> \<not> 2 ^ 63 < - i"
proof -
  assume "sint i < 0"
  then have l: "2 ^ 63 \<le> uint i" by (simp add: sint_neg_iff)
  have u: "uint i < 2 ^ 64" using uint_lt2p [of i] by simp
  have "uint (- i) = (- uint i) mod 2 ^ 64" by (simp add: uint_word_ariths)
  also have "\<dots> = 2 ^ 64 - uint i"
    using l u by (simp add: zmod_zminus1_eq_if)
  finally have "uint (- i) \<le> 2 ^ 63" using l by simp
  then show ?thesis by (simp add: word_less_alt)
qed

lemma nonneg_magnitude: "0 \<le> sint (i :: 64 word) \<Longrightarrow> \<not> 2 ^ 63 \<le> i"
proof -
  assume "0 \<le> sint i"
  then have "uint i < 2 ^ 63" using sint_neg_iff [of i] by simp
  then show ?thesis by (simp add: word_le_def)
qed

lemma ParseInt_FormatInt: "ParseInt (FormatInt i) = Inr i"
proof (cases "i <s 0")
  case True
  then have "sint i < 0" by (simp add: word_sless_alt)
  then have le: "\<not> 2 ^ 63 < - i" by (rule neg_magnitude)
  have "ParseInt (FormatInt i) = ParseInt_signed True (dec (unat (- i)))"
    using True by (simp add: FormatInt_def ParseInt_def)
  also have "\<dots> = Inr i"
    using le by (simp add: ParseInt_signed_def ParseUint_dec_unat)
  finally show ?thesis .
next
  case False
  then have "0 \<le> sint i" by (simp add: word_sless_alt)
  then have lt: "\<not> 2 ^ 63 \<le> i" by (rule nonneg_magnitude)
  have "ParseInt (FormatInt i) = ParseInt_signed False (dec (unat i))"
    using False by (simp add: FormatInt_def ParseInt_dec)
  also have "\<dots> = Inr i"
    using lt by (simp add: ParseInt_signed_def ParseUint_dec_unat)
  finally show ?thesis .
qed

section \<open>Lemmas: floating-point values, conversions and times\<close>

lemma float_magnitude_floor:
  "\<lfloor>real m * 2 powi e\<rfloor> = (if 0 \<le> e then int m * 2 ^ nat e else int m div 2 ^ nat (- e))"
proof (cases "0 \<le> e")
  case True
  then have "real m * 2 powi e = of_int (int m * 2 ^ nat e)"
    by (simp add: power_int_nonneg_exp)
  then have "\<lfloor>real m * 2 powi e\<rfloor> = int m * 2 ^ nat e"
    by (simp only: floor_of_int)
  with True show ?thesis by simp
next
  case False
  then have "real m * 2 powi e = of_nat m / of_nat (2 ^ nat (- e))"
    by (simp add: power_int_def field_simps)
  then have "\<lfloor>real m * 2 powi e\<rfloor> = int (m div 2 ^ nat (- e))"
    by (simp only: floor_divide_of_nat_eq)
  with False show ?thesis by (simp add: zdiv_int)
qed

lemma float_gt0_iff: "float_gt0 (FFinite neg m e) \<longleftrightarrow> 0 < float_val neg m e"
proof -
  have p: "(0::real) < 2 powi e" by (rule zero_less_power_int) simp
  show ?thesis
  proof (cases neg)
    case True
    have "0 \<le> real m * 2 powi e" using p by simp
    then have "\<not> real m * 2 powi e < 0" by (simp only: not_less)
    with True show ?thesis by (simp add: float_val_def)
  next
    case False
    with p show ?thesis by (simp add: float_val_def zero_less_mult_iff)
  qed
qed

lemma float_trunc_val:
  "float_trunc (FFinite neg m e) =
     Some (if 0 \<le> float_val neg m e then \<lfloor>float_val neg m e\<rfloor> else \<lceil>float_val neg m e\<rceil>)"
proof -
  define y where "y = real m * 2 powi e"
  define t where "t = (if 0 \<le> e then int m * 2 ^ nat e else int m div 2 ^ nat (- e))"
  have p: "(0::real) < 2 powi e" by (rule zero_less_power_int) simp
  have y0: "0 \<le> y" using p by (simp add: y_def)
  have fy: "\<lfloor>y\<rfloor> = t" unfolding y_def t_def by (rule float_magnitude_floor)
  have tr: "float_trunc (FFinite neg m e) = Some ((if neg then - 1 else 1) * t)"
    by (simp add: t_def)
  show ?thesis
  proof (cases neg)
    case False
    then have "float_val neg m e = y" by (simp add: float_val_def y_def)
    with y0 fy tr False show ?thesis by simp
  next
    case True
    then have v: "float_val neg m e = - y" by (simp add: float_val_def y_def)
    show ?thesis
    proof (cases "y = 0")
      case True
      with fy have "t = 0" by simp
      with v True tr show ?thesis by simp
    next
      case False
      with y0 have "\<not> 0 \<le> - y" by simp
      moreover have "\<lceil>- y\<rceil> = - t" using fy by (simp add: ceiling_minus)
      ultimately show ?thesis using v tr True by simp
    qed
  qed
qed

lemma float_trunc_seconds: "float_trunc f = float_seconds f"
  by (cases f) (simp_all only: float_trunc_val float_seconds.simps drop_fraction_def float_trunc.simps)

lemma sint_scast_up: "LENGTH('a::len) \<le> 64 \<Longrightarrow> sint (scast (w :: 'a word) :: 64 word) = sint w"
  by (rule sint_up_scast) (simp add: is_up)

lemma uint_ucast_up: "LENGTH('a::len) \<le> 64 \<Longrightarrow> uint (ucast (w :: 'a word) :: 64 word) = uint w"
  by (rule uint_up_ucast) (simp add: is_up)

lemma sint_word_of_int_64:
  "- (2 ^ 63) \<le> i \<Longrightarrow> i < 2 ^ 63 \<Longrightarrow> sint (word_of_int i :: 64 word) = i"
proof -
  assume a: "- (2 ^ 63) \<le> i" and b: "i < 2 ^ 63"
  have "signed_take_bit 63 i = i" using a b by (rule signed_take_bit_int_eq_self)
  then show ?thesis by (simp add: sint_sbintrunc')
qed

text \<open>The equations that run \<open>Claims_Bool\<close> on a concrete text.\<close>

lemmas Bool_eval = Claims_Bool_def index_def MatchString_def search_tree_def trueBool_def
  trueBool_group_def in_class_def in_range_def

section \<open>The claims\<close>

text \<open>
  Claim C1. For every claim set and every name absent from it, \<^verbatim>\<open>String\<close> returns the
  empty text, \<^verbatim>\<open>Strings\<close> the nil sequence, \<^verbatim>\<open>Bool\<close> false, \<^verbatim>\<open>Int\<close> 0 and \<^verbatim>\<open>Time\<close> the
  origin of the Unix epoch in UTC: zero seconds, zero nanoseconds, location UTC.
\<close>

theorem absent_defaults:
  "c name = None \<Longrightarrow>
     Claims_String ff c name = '''' \<and>
     Claims_Strings ff c name = Inr [] \<and>
     Claims_Bool c name = False \<and>
     Claims_Int oor c name = 0 \<and>
     Claims_Time oor parse c name = epoch_UTC \<and>
     Time_Unix epoch_UTC = 0 \<and> wall epoch_UTC = 0 \<and> loc epoch_UTC = UTC"
  by (simp add: Claims_String_def Claims_Strings_def Claims_Bool_def Claims_Int_def
      Claims_Time_def index_def stringify_def epoch_UTC_def Time_Unix_def Time_UTC_def
      time_Unix_def)

theorem absent_defaults_witness:
  "([''iss'' \<mapsto> VString ''auth.example.com''] :: 64 Claims) ''exp'' = None \<and>
   Claims_String ff_sample ([''iss'' \<mapsto> VString ''auth.example.com''] :: 64 Claims) ''exp'' = '''' \<and>
   Claims_Strings ff_sample ([''iss'' \<mapsto> VString ''auth.example.com''] :: 64 Claims) ''exp'' = Inr [] \<and>
   Claims_Bool ([''iss'' \<mapsto> VString ''auth.example.com''] :: 64 Claims) ''exp'' = False \<and>
   Claims_Int oor_amd64 ([''iss'' \<mapsto> VString ''auth.example.com''] :: 64 Claims) ''exp'' = 0 \<and>
   Claims_Time oor_amd64 parse_sample ([''iss'' \<mapsto> VString ''auth.example.com''] :: 64 Claims) ''exp''
     = epoch_UTC"
  using absent_defaults [of "[''iss'' \<mapsto> VString ''auth.example.com''] :: 64 Claims" "''exp''"
      ff_sample oor_amd64 parse_sample]
  by simp

text \<open>
  Claim C10. For a name that is present and mapped to nil, \<^verbatim>\<open>String\<close> returns the empty
  text and \<^verbatim>\<open>Strings\<close> a sequence of one element, the empty text; once the name is
  removed \<^verbatim>\<open>Strings\<close> returns the nil sequence, so the two cases differ.
\<close>

theorem null_claim:
  "c name = Some VNil \<Longrightarrow>
     Claims_String ff c name = '''' \<and>
     Claims_Strings ff c name = Inr [''''] \<and>
     Claims_Strings ff (c(name := None)) name = Inr []"
  by (simp add: Claims_String_def Claims_Strings_def index_def stringify_def)

theorem null_claim_witness:
  "([''aud'' \<mapsto> VNil] :: 64 Claims) ''aud'' = Some VNil \<and>
   Claims_String ff_sample ([''aud'' \<mapsto> VNil] :: 64 Claims) ''aud'' = '''' \<and>
   Claims_Strings ff_sample ([''aud'' \<mapsto> VNil] :: 64 Claims) ''aud'' = Inr [''''] \<and>
   Claims_Strings ff_sample (([''aud'' \<mapsto> VNil] :: 64 Claims)(''aud'' := None)) ''aud'' = Inr []"
  using null_claim [of "[''aud'' \<mapsto> VNil] :: 64 Claims" "''aud''" ff_sample]
  by simp

text \<open>
  Claim C8. On a claim that is one text \<open>t\<close>, \<^verbatim>\<open>Strings\<close> returns the sequence \<open>[t]\<close>.
  On a claim that is a sequence of arbitrary values it returns \<^verbatim>\<open>stringify\<close> of each
  element, in the same order and so of the same length; and \<^verbatim>\<open>[1, "x", true]\<close> gives
  \<^verbatim>\<open>["1", "x", "true"]\<close>. The literal 1 is an \<^verbatim>\<open>int\<close>, which needs more than one bit
  to hold 1.
\<close>

theorem Strings_elements:
  "1 < LENGTH('w::len) \<Longrightarrow>
   Claims_Strings ff ((c :: 'w Claims)(name \<mapsto> VString t)) name = Inr [t] \<and>
   Claims_Strings ff (c(name \<mapsto> VSlice ts)) name = Inr (map (stringify ff) ts) \<and>
   Claims_Strings ff (c(name \<mapsto> VSlice [VInt 1, VString ''x'', VBool True])) name
     = Inr [''1'', ''x'', ''true'']"
proof -
  assume w: "1 < LENGTH('w)"
  have one: "stringify ff (VInt (1 :: 'w word)) = ''1''"
    using w by (simp add: stringify_def FormatInt_def dec.simps digit_char_def word_sless_alt)
  have sl: "\<And>vs. Claims_Strings ff (c(name \<mapsto> VSlice vs)) name = Inr (map (stringify ff) vs)"
    by (simp add: Claims_Strings_def fill_all)
  have "Claims_Strings ff (c(name \<mapsto> VString t)) name = Inr [t]"
    by (simp add: Claims_Strings_def)
  moreover have "Claims_Strings ff (c(name \<mapsto> VSlice [VInt 1, VString ''x'', VBool True])) name
     = Inr [''1'', ''x'', ''true'']"
    by (simp only: sl) (simp add: one, simp add: stringify_def)
  ultimately show ?thesis using sl by simp
qed

theorem Strings_elements_witness:
  "1 < LENGTH(64) \<and>
   Claims_Strings ff_sample ([''roles'' \<mapsto> VString ''admin''] :: 64 Claims) ''roles'' = Inr [''admin''] \<and>
   Claims_Strings ff_sample
     ([''roles'' \<mapsto> VSlice [VInt 1, VString ''x'', VBool True]] :: 64 Claims) ''roles''
     = Inr [''1'', ''x'', ''true'']"
  using Strings_elements [of ff_sample "Map.empty :: 64 Claims" "''roles''" "''admin''" "[]"]
  by simp

text \<open>
  Claim C2 says that \<^verbatim>\<open>Bool\<close> is true exactly for the positive values of every numeric
  type, the 8- and 16-bit integers included. The switch of \<^verbatim>\<open>Bool\<close> names \<^verbatim>\<open>int\<close>,
  \<^verbatim>\<open>uint\<close>, \<^verbatim>\<open>int32\<close>, \<^verbatim>\<open>uint32\<close>, \<^verbatim>\<open>int64\<close>, \<^verbatim>\<open>uint64\<close>, \<^verbatim>\<open>float64\<close> and
  \<^verbatim>\<open>float32\<close>; an \<^verbatim>\<open>int8\<close> holding 5 reaches the default branch and gives false.
\<close>

theorem Bool_narrow_int_counterexample:
  "Claims_Bool ([''admin'' \<mapsto> VInt8 5] :: 64 Claims) ''admin'' = False \<and> 0 < sint (5 :: 8 word)"
  by (simp add: Claims_Bool_def index_def)

text \<open>
  Claim C2, as amended. For a claim stored as \<^verbatim>\<open>int\<close>, \<^verbatim>\<open>int32\<close>, \<^verbatim>\<open>int64\<close>, \<^verbatim>\<open>uint\<close>,
  \<^verbatim>\<open>uint32\<close>, \<^verbatim>\<open>uint64\<close>, \<^verbatim>\<open>float32\<close> or \<^verbatim>\<open>float64\<close>, \<^verbatim>\<open>Bool\<close> is true if and only
  if the value is strictly greater than zero: the signed reading of a signed integer,
  the unsigned reading of an unsigned one, the real number of a finite floating-point
  value; \<open>+Inf\<close> gives true, \<open>-Inf\<close> and NaN give false. For a claim stored as
  \<^verbatim>\<open>int8\<close>, \<^verbatim>\<open>uint8\<close>, \<^verbatim>\<open>int16\<close> or \<^verbatim>\<open>uint16\<close>, \<^verbatim>\<open>Bool\<close> is false whatever the value.
\<close>

theorem Bool_numeric:
  "Claims_Bool (c(name \<mapsto> VInt i)) name = (0 < sint i) \<and>
   Claims_Bool (c(name \<mapsto> VInt32 i32)) name = (0 < sint i32) \<and>
   Claims_Bool (c(name \<mapsto> VInt64 i64)) name = (0 < sint i64) \<and>
   Claims_Bool (c(name \<mapsto> VUint u)) name = (0 < uint u) \<and>
   Claims_Bool (c(name \<mapsto> VUint32 u32)) name = (0 < uint u32) \<and>
   Claims_Bool (c(name \<mapsto> VUint64 u64)) name = (0 < uint u64) \<and>
   Claims_Bool (c(name \<mapsto> VFloat32 (FFinite neg m e))) name = (0 < float_val neg m e) \<and>
   Claims_Bool (c(name \<mapsto> VFloat64 (FFinite neg m e))) name = (0 < float_val neg m e) \<and>
   Claims_Bool (c(name \<mapsto> VFloat32 (FInf neg))) name = (\<not> neg) \<and>
   Claims_Bool (c(name \<mapsto> VFloat64 (FInf neg))) name = (\<not> neg) \<and>
   Claims_Bool (c(name \<mapsto> VFloat32 FNaN)) name = False \<and>
   Claims_Bool (c(name \<mapsto> VFloat64 FNaN)) name = False \<and>
   Claims_Bool (c(name \<mapsto> VInt8 i8)) name = False \<and>
   Claims_Bool (c(name \<mapsto> VUint8 u8)) name = False \<and>
   Claims_Bool (c(name \<mapsto> VInt16 i16)) name = False \<and>
   Claims_Bool (c(name \<mapsto> VUint16 u16)) name = False"
proof -
  have u: "\<And>w :: 'a word. (0 < w) = (0 < uint w)"
    and u32: "\<And>w :: 32 word. (0 < w) = (0 < uint w)"
    and u64: "\<And>w :: 64 word. (0 < w) = (0 < uint w)"
    by (simp_all add: word_less_def)
  have f: "(\<not> neg \<and> 0 < m) = (0 < float_val neg m e)"
    using float_gt0_iff [of neg m e] by simp
  show ?thesis
    by (simp add: Claims_Bool_def index_def word_sless_alt u u32 u64 f)
qed

theorem Bool_numeric_witness:
  "Claims_Bool ([''n'' \<mapsto> VInt64 (- 3)] :: 64 Claims) ''n'' = False \<and>
   Claims_Bool ([''n'' \<mapsto> VInt64 0] :: 64 Claims) ''n'' = False \<and>
   Claims_Bool ([''n'' \<mapsto> VInt64 7] :: 64 Claims) ''n'' = True \<and>
   Claims_Bool ([''n'' \<mapsto> VUint32 7] :: 64 Claims) ''n'' = True \<and>
   Claims_Bool ([''n'' \<mapsto> VInt8 7] :: 64 Claims) ''n'' = False"
  using Bool_numeric [where c = "Map.empty :: 64 Claims" and name = "''n''" and ?i64.0 = "- 3"
      and ?i8.0 = 7]
    Bool_numeric [where c = "Map.empty :: 64 Claims" and name = "''n''" and ?i64.0 = 0
      and ?u32.0 = 7]
    Bool_numeric [where c = "Map.empty :: 64 Claims" and name = "''n''" and ?i64.0 = 7]
  by simp

text \<open>
  Claim C3 lists \<^verbatim>\<open>"TRUE"\<close>, \<^verbatim>\<open>"tru"\<close>, \<^verbatim>\<open>"tr"\<close> and \<^verbatim>\<open>"t"\<close> among the texts for which
  \<^verbatim>\<open>Bool\<close> is true. The pattern has no case-insensitivity flag and its letter \<^verbatim>\<open>e\<close> is
  not optional: none of the four is accepted.
\<close>

theorem Bool_text_counterexample:
  "Claims_Bool ([''admin'' \<mapsto> VString ''TRUE''] :: 64 Claims) ''admin'' = False \<and>
   Claims_Bool ([''admin'' \<mapsto> VString ''tru''] :: 64 Claims) ''admin'' = False \<and>
   Claims_Bool ([''admin'' \<mapsto> VString ''tr''] :: 64 Claims) ''admin'' = False \<and>
   Claims_Bool ([''admin'' \<mapsto> VString ''t''] :: 64 Claims) ''admin'' = False"
  by (simp add: Bool_eval)

text \<open>
  Claim C3, as amended. On text, \<^verbatim>\<open>Bool\<close> is true for \<^verbatim>\<open>"true"\<close> and \<^verbatim>\<open>"True"\<close> and false
  for \<^verbatim>\<open>"TRUE"\<close>, \<^verbatim>\<open>"tru"\<close>, \<^verbatim>\<open>"tr"\<close> and \<^verbatim>\<open>"t"\<close>; it is true for \<^verbatim>\<open>"10"\<close> and
  \<^verbatim>\<open>"99"\<close>; false for every text of one character, so for each of \<^verbatim>\<open>"0"\<close> to \<^verbatim>\<open>"9"\<close>;
  and false for \<^verbatim>\<open>"false"\<close>, \<^verbatim>\<open>"yes"\<close> and the empty text.
\<close>

theorem Bool_text_examples:
  "Claims_Bool (c(name \<mapsto> VString ''true'')) name = True \<and>
   Claims_Bool (c(name \<mapsto> VString ''True'')) name = True \<and>
   Claims_Bool (c(name \<mapsto> VString ''TRUE'')) name = False \<and>
   Claims_Bool (c(name \<mapsto> VString ''tru'')) name = False \<and>
   Claims_Bool (c(name \<mapsto> VString ''tr'')) name = False \<and>
   Claims_Bool (c(name \<mapsto> VString ''t'')) name = False \<and>
   Claims_Bool (c(name \<mapsto> VString ''10'')) name = True \<and>
   Claims_Bool (c(name \<mapsto> VString ''99'')) name = True \<and>
   Claims_Bool (c(name \<mapsto> VString [d])) name = False \<and>
   Claims_Bool (c(name \<mapsto> VString ''false'')) name = False \<and>
   Claims_Bool (c(name \<mapsto> VString ''yes'')) name = False \<and>
   Claims_Bool (c(name \<mapsto> VString '''')) name = False"
  by (simp add: Bool_eval)

theorem Bool_text_examples_witness:
  "Claims_Bool ([''admin'' \<mapsto> VString ''true''] :: 64 Claims) ''admin'' = True \<and>
   Claims_Bool ([''admin'' \<mapsto> VString ''TRUE''] :: 64 Claims) ''admin'' = False \<and>
   Claims_Bool ([''admin'' \<mapsto> VString ''7''] :: 64 Claims) ''admin'' = False"
  using Bool_text_examples [of "Map.empty :: 64 Claims" "''admin''" "CHR ''7''"]
  by simp

text \<open>
  Claim C4. On a claim whose value is the text \<open>s\<close>, \<^verbatim>\<open>Bool\<close> is true if and only if
  \<open>s\<close> matches the anchored pattern \<^verbatim>\<open>^([Tt]r?u?e|[1-9][0-9]+)$\<close>; and the texts that
  match are those the spec describes: the eight texts of the letter pattern, or at least
  two digits of which the first is 1 to 9.
\<close>

theorem Bool_text_regex:
  "c name = Some (VString s) \<Longrightarrow>
     (Claims_Bool c name \<longleftrightarrow> matches trueBool s) \<and>
     (matches trueBool s \<longleftrightarrow> truthy_letters s \<or> truthy_digits s)"
  by (simp add: Claims_Bool_def index_def MatchString_iff matches_trueBool)

theorem Bool_text_regex_witness:
  "([''admin'' \<mapsto> VString ''Tue''] :: 64 Claims) ''admin'' = Some (VString ''Tue'') \<and>
   Claims_Bool ([''admin'' \<mapsto> VString ''Tue''] :: 64 Claims) ''admin'' \<and>
   matches trueBool ''Tue'' \<and> truthy_letters ''Tue'' \<and> \<not> truthy_digits ''Tue'' \<and>
   ([''admin'' \<mapsto> VString ''Tue1''] :: 64 Claims) ''admin'' = Some (VString ''Tue1'') \<and>
   \<not> Claims_Bool ([''admin'' \<mapsto> VString ''Tue1''] :: 64 Claims) ''admin'' \<and>
   \<not> matches trueBool ''Tue1''"
  using Bool_text_regex [of "[''admin'' \<mapsto> VString ''Tue''] :: 64 Claims" "''admin''" "''Tue''"]
    Bool_text_regex [of "[''admin'' \<mapsto> VString ''Tue1''] :: 64 Claims" "''admin''" "''Tue1''"]
  by (simp add: truthy_letters_def truthy_digits_def in_range_def)

text \<open>
  Claim C5. For every 64-bit signed integer \<open>n\<close>, \<^verbatim>\<open>Int\<close> returns \<open>n\<close> when the claim is
  \<open>n\<close> stored as an \<^verbatim>\<open>int64\<close>, and when the claim is the decimal text of \<open>n\<close> as
  \<^verbatim>\<open>strconv.FormatInt\<close> writes it.
\<close>

theorem Int_roundtrip:
  "c name = Some v \<Longrightarrow> v = VInt64 n \<or> v = VString (FormatInt n) \<Longrightarrow> Claims_Int oor c name = n"
  by (auto simp: Claims_Int_def index_def ParseInt_FormatInt)

theorem Int_roundtrip_witness:
  "([''n'' \<mapsto> VInt64 (- 42)] :: 64 Claims) ''n'' = Some (VInt64 (- 42)) \<and>
   Claims_Int oor_amd64 ([''n'' \<mapsto> VInt64 (- 42)] :: 64 Claims) ''n'' = - 42 \<and>
   FormatInt (- 9223372036854775808) = ''-9223372036854775808'' \<and>
   Claims_Int oor_amd64 ([''n'' \<mapsto> VString ''-9223372036854775808''] :: 64 Claims) ''n''
     = - 9223372036854775808"
proof -
  have f: "FormatInt (- 9223372036854775808) = ''-9223372036854775808''"
    by (simp add: FormatInt_def dec.simps digit_char_def word_sless_alt)
  have "Claims_Int oor_amd64 ([''n'' \<mapsto> VInt64 (- 42)] :: 64 Claims) ''n'' = - 42"
    by (rule Int_roundtrip [where v = "VInt64 (- 42)"]) simp_all
  moreover have "Claims_Int oor_amd64 ([''n'' \<mapsto> VString ''-9223372036854775808''] :: 64 Claims) ''n''
      = - 9223372036854775808"
    by (rule Int_roundtrip [where v = "VString ''-9223372036854775808''"]) (simp_all add: f)
  ultimately show ?thesis using f by simp
qed

text \<open>
  Claim C6 says that \<^verbatim>\<open>Time\<close> returns a timestamp of \<open>s\<close> seconds for every integer
  \<open>s\<close> stored as the claim value. The switch of \<^verbatim>\<open>Time\<close> names the same eight types as
  that of \<^verbatim>\<open>Bool\<close>: 5 stored as an \<^verbatim>\<open>int8\<close> gives the epoch origin. And \<open>2\<^sup>6\<^sup>3\<close> stored
  as a \<^verbatim>\<open>uint64\<close> is converted to \<^verbatim>\<open>int64\<close> with wrap-around and gives a timestamp
  before the epoch.
\<close>

theorem Time_seconds_counterexample:
  "Claims_Time oor_amd64 parse_sample ([''exp'' \<mapsto> VInt8 5] :: 64 Claims) ''exp'' = epoch_UTC \<and>
   sint (Time_Unix (Claims_Time oor_amd64 parse_sample ([''exp'' \<mapsto> VInt8 5] :: 64 Claims) ''exp''))
     \<noteq> 5 \<and>
   sint (Time_Unix (Claims_Time oor_amd64 parse_sample
          ([''exp'' \<mapsto> VUint64 9223372036854775808] :: 64 Claims) ''exp''))
     = - 9223372036854775808"
  by (simp add: Claims_Time_def index_def epoch_UTC_def Time_Unix_def Time_UTC_def time_Unix_def)

text \<open>
  Claim C6, as amended. Let \<open>s\<close> be the number of seconds that a claim value stores as an
  \<^verbatim>\<open>int\<close>, \<^verbatim>\<open>int32\<close>, \<^verbatim>\<open>int64\<close>, \<^verbatim>\<open>uint\<close>, \<^verbatim>\<open>uint32\<close> or \<^verbatim>\<open>uint64\<close> (of at most 64
  bits), or the value of a finite \<^verbatim>\<open>float32\<close> or \<^verbatim>\<open>float64\<close> without its fractional
  part. If \<open>s\<close> is in the range of a 64-bit signed integer, \<^verbatim>\<open>Time\<close> returns a
  timestamp in UTC, on a whole second, whose seconds since the epoch are \<open>s\<close>.
\<close>

theorem Time_seconds:
  "c name = Some v \<Longrightarrow> stored_seconds v = Some s \<Longrightarrow> - (2 ^ 63) \<le> s \<Longrightarrow> s < 2 ^ 63 \<Longrightarrow>
   LENGTH('w::len) \<le> 64 \<Longrightarrow>
     loc (Claims_Time oor parse (c :: 'w Claims) name) = UTC \<and>
     wall (Claims_Time oor parse c name) = 0 \<and>
     sint (Time_Unix (Claims_Time oor parse c name)) = s"
proof -
  assume c: "c name = Some v" and v: "stored_seconds v = Some s"
    and lo: "- (2 ^ 63) \<le> s" and hi: "s < 2 ^ 63" and w: "LENGTH('w) \<le> 64"
  have t: "\<And>x. loc (Time_UTC (time_Unix x)) = UTC \<and> wall (Time_UTC (time_Unix x)) = 0 \<and>
      Time_Unix (Time_UTC (time_Unix x)) = x"
    by (simp add: Time_Unix_def Time_UTC_def time_Unix_def)
  have f: "\<And>f. float_seconds f = Some s \<Longrightarrow> sint (int64_of_float oor f) = s"
    using lo hi by (simp add: int64_of_float_def float_trunc_seconds sint_word_of_int_64)
  have u: "\<And>x :: 64 word. uint x = s \<Longrightarrow> sint x = s"
    using hi sint_small by simp
  show ?thesis
  proof (cases v)
    case (VInt x)
    with c v w show ?thesis by (simp add: Claims_Time_def index_def stored_seconds_def t sint_scast_up)
  next
    case (VInt32 x)
    with c v show ?thesis by (simp add: Claims_Time_def index_def stored_seconds_def t sint_scast_up)
  next
    case (VInt64 x)
    with c v show ?thesis by (simp add: Claims_Time_def index_def stored_seconds_def t)
  next
    case (VUint x)
    with c v w have "uint (ucast x :: 64 word) = s" by (simp add: stored_seconds_def uint_ucast_up)
    then have "sint (ucast x :: 64 word) = s" by (rule u)
    with c VUint show ?thesis by (simp add: Claims_Time_def index_def t)
  next
    case (VUint32 x)
    with c v have "uint (ucast x :: 64 word) = s" by (simp add: stored_seconds_def uint_ucast_up)
    then have "sint (ucast x :: 64 word) = s" by (rule u)
    with c VUint32 show ?thesis by (simp add: Claims_Time_def index_def t)
  next
    case (VUint64 x)
    with c v have "sint x = s" by (simp add: stored_seconds_def u)
    with c VUint64 show ?thesis by (simp add: Claims_Time_def index_def t)
  next
    case (VFloat32 x)
    with c v f show ?thesis by (simp add: Claims_Time_def index_def stored_seconds_def t)
  next
    case (VFloat64 x)
    with c v f show ?thesis by (simp add: Claims_Time_def index_def stored_seconds_def t)
  qed (use v in \<open>simp_all add: stored_seconds_def\<close>)
qed

theorem Time_seconds_witness:
  "([''exp'' \<mapsto> VInt64 1700000000] :: 64 Claims) ''exp'' = Some (VInt64 1700000000) \<and>
   stored_seconds (VInt64 1700000000 :: 64 word val) = Some 1700000000 \<and>
   - (2 ^ 63) \<le> (1700000000 :: int) \<and> (1700000000 :: int) < 2 ^ 63 \<and> LENGTH(64) \<le> 64 \<and>
   loc (Claims_Time oor_amd64 parse_sample ([''exp'' \<mapsto> VInt64 1700000000] :: 64 Claims) ''exp'') = UTC \<and>
   sint (Time_Unix (Claims_Time oor_amd64 parse_sample
      ([''exp'' \<mapsto> VInt64 1700000000] :: 64 Claims) ''exp'')) = 1700000000 \<and>
   stored_seconds (VFloat64 (FFinite True 7 (- 1)) :: 64 word val) = Some (- 3) \<and>
   sint (Time_Unix (Claims_Time oor_amd64 parse_sample
      ([''exp'' \<mapsto> VFloat64 (FFinite True 7 (- 1))] :: 64 Claims) ''exp'')) = - 3"
proof -
  have d: "stored_seconds (VFloat64 (FFinite True 7 (- 1)) :: 64 word val) = Some (- 3)"
    by (simp add: stored_seconds_def float_trunc_seconds [symmetric])
  have e: "loc (Claims_Time oor_amd64 parse_sample
      ([''exp'' \<mapsto> VFloat64 (FFinite True 7 (- 1))] :: 64 Claims) ''exp'') = UTC \<and>
    wall (Claims_Time oor_amd64 parse_sample
      ([''exp'' \<mapsto> VFloat64 (FFinite True 7 (- 1))] :: 64 Claims) ''exp'') = 0 \<and>
    sint (Time_Unix (Claims_Time oor_amd64 parse_sample
      ([''exp'' \<mapsto> VFloat64 (FFinite True 7 (- 1))] :: 64 Claims) ''exp'')) = - 3"
    by (rule Time_seconds [where v = "VFloat64 (FFinite True 7 (- 1))" and s = "- 3"])
      (simp_all add: d)
  have a: "([''exp'' \<mapsto> VInt64 1700000000] :: 64 Claims) ''exp'' = Some (VInt64 1700000000)" by simp
  have b: "stored_seconds (VInt64 1700000000 :: 64 word val) = Some 1700000000"
    by (simp add: stored_seconds_def)
  have "loc (Claims_Time oor_amd64 parse_sample ([''exp'' \<mapsto> VInt64 1700000000] :: 64 Claims) ''exp'') = UTC \<and>
    wall (Claims_Time oor_amd64 parse_sample ([''exp'' \<mapsto> VInt64 1700000000] :: 64 Claims) ''exp'') = 0 \<and>
    sint (Time_Unix (Claims_Time oor_amd64 parse_sample
      ([''exp'' \<mapsto> VInt64 1700000000] :: 64 Claims) ''exp'')) = 1700000000"
    by (rule Time_seconds [where v = "VInt64 1700000000" and s = 1700000000]) (simp_all add: b)
  with a b d e show ?thesis by simp
qed





end
